theory Spec2Isabelle
  imports Complex_Main "HOL-Library.Multiset" "HOL-Library.Char_ord" "HOL-Library.List_Lexorder"
begin

section \<open>Numbers\<close>

text \<open>
  The source is TypeScript; every numeric field and intermediate result has the type
  \<^verbatim>\<open>number\<close>, an IEEE 754 binary64 value. A \<^verbatim>\<open>number\<close> is modelled as a finite value
  or one of the three non-finite values that JavaScript arithmetic produces instead of
  raising.

  A finite value is carried as the real number it denotes. Every arithmetic operation
  computes the mathematical result and rounds it with \<open>rnd\<close> below: to the nearest value
  with a 53-bit significand, a tie going to the even significand, with gradual underflow
  below \<open>2 powi (- 1022)\<close> and overflow to an infinity when the rounded value reaches
  \<open>2 powi 1024\<close>. A numeric literal of the source denotes the rounded value of its
  decimal, \<open>lit\<close>.

  Negative zero is not distinguished from zero. The two differ only in the sign of a
  quotient by zero, and with non-negative cost components the divisor of
  \<open>computeMargin\<close> is never a negative zero.
\<close>

datatype number = Fin real | PosInf | NegInf | NaN

fun js_neg :: "number \<Rightarrow> number" where
  "js_neg (Fin a) = Fin (- a)"
| "js_neg PosInf = NegInf"
| "js_neg NegInf = PosInf"
| "js_neg NaN = NaN"

text \<open>
  The binary exponent of a positive real: \<open>2 powi bexp x \<le> x < 2 powi (bexp x + 1)\<close>.
\<close>

function bexp :: "real \<Rightarrow> int" where
  "bexp x = (if x \<le> 0 then 0 else if 2 \<le> x then bexp (x / 2) + 1
             else if x < 1 then bexp (x * 2) - 1 else 0)"
  by pat_completeness auto
termination
proof (relation "measure (\<lambda>x. nat \<lfloor>\<bar>log 2 x\<bar>\<rfloor> + (if x < 1 then 1 else 0))")
  show "wf (measure (\<lambda>x::real. nat \<lfloor>\<bar>log 2 x\<bar>\<rfloor> + (if x < 1 then 1 else 0)))"
    by simp
next
  fix x :: real
  assume "\<not> x \<le> 0" and x2: "2 \<le> x"
  have l: "log 2 (x / 2) = log 2 x - 1" using x2 by (simp add: log_divide)
  have "1 \<le> log 2 x" using x2 by (simp add: le_log_iff)
  then have "\<lfloor>\<bar>log 2 x - 1\<bar>\<rfloor> = \<lfloor>\<bar>log 2 x\<bar>\<rfloor> - 1" and "1 \<le> \<lfloor>\<bar>log 2 x\<bar>\<rfloor>"
    by (simp_all add: le_floor_iff)
  then show "(x / 2, x) \<in> measure (\<lambda>x. nat \<lfloor>\<bar>log 2 x\<bar>\<rfloor> + (if x < 1 then 1 else 0))"
    using x2 by (simp add: l)
next
  fix x :: real
  assume x0: "\<not> x \<le> 0" and "\<not> 2 \<le> x" and x1: "x < 1"
  have l: "log 2 (x * 2) = log 2 x + 1" using x0 by (simp add: log_mult)
  have neg: "log 2 x < 0" using x0 x1 by simp
  show "(x * 2, x) \<in> measure (\<lambda>x. nat \<lfloor>\<bar>log 2 x\<bar>\<rfloor> + (if x < 1 then 1 else 0))"
  proof (cases "x * 2 < 1")
    case True
    then have "log 2 (x * 2) < 0" using x0 by simp
    then have a: "\<bar>log 2 (x * 2)\<bar> = \<bar>log 2 x\<bar> - 1" and "1 \<le> \<bar>log 2 x\<bar>" using neg l by simp_all
    then have "\<lfloor>\<bar>log 2 (x * 2)\<bar>\<rfloor> = \<lfloor>\<bar>log 2 x\<bar>\<rfloor> - 1" and "1 \<le> \<lfloor>\<bar>log 2 x\<bar>\<rfloor>"
      by (simp_all add: le_floor_iff)
    then show ?thesis using True x1 by simp
  next
    case False
    then have "0 \<le> log 2 (x * 2)" using x0 by simp
    moreover have "log 2 (x * 2) < 1" using neg l by simp
    ultimately have "\<lfloor>\<bar>log 2 (x * 2)\<bar>\<rfloor> = 0" by (simp add: floor_eq_iff)
    then show ?thesis using False x1 by simp
  qed
qed

declare bexp.simps [simp del]

text \<open>The nearest integer, a tie going to the even one.\<close>

definition rne :: "real \<Rightarrow> int" where
  "rne q = (let f = \<lfloor>q\<rfloor>; d = q - of_int f
            in if d < 1 / 2 then f else if 1 / 2 < d then f + 1 else if even f then f else f + 1)"

text \<open>
  The distance between neighbouring binary64 values around a positive real: 52 binary
  places below its leading bit, and \<open>2 powi (- 1074)\<close> in the subnormal range.
\<close>

definition ulp :: "real \<Rightarrow> real" where
  "ulp x = 2 powi (max (bexp x) (- 1022) - 52)"

text \<open>A positive real rounded to the nearest multiple of its \<open>ulp\<close>.\<close>

definition rval :: "real \<Rightarrow> real" where
  "rval x = of_int (rne (x / ulp x)) * ulp x"

definition rmag :: "real \<Rightarrow> number" where
  "rmag x = (if 2 powi 1024 \<le> rval x then PosInf else Fin (rval x))"

text \<open>The binary64 value of a real: what an operation returns for its exact result.\<close>

definition rnd :: "real \<Rightarrow> number" where
  "rnd x = (if x = 0 then Fin 0 else if 0 < x then rmag x else js_neg (rmag (- x)))"

text \<open>A numeric literal of the source.\<close>

definition lit :: "real \<Rightarrow> number" where
  "lit x = rnd x"

text \<open>A real that is a binary64 value.\<close>

definition is_double :: "real \<Rightarrow> bool" where
  "is_double x \<longleftrightarrow> rnd x = Fin x"

fun js_add :: "number \<Rightarrow> number \<Rightarrow> number" where
  "js_add NaN y = NaN"
| "js_add x NaN = NaN"
| "js_add (Fin a) (Fin b) = rnd (a + b)"
| "js_add PosInf NegInf = NaN"
| "js_add NegInf PosInf = NaN"
| "js_add PosInf y = PosInf"
| "js_add x PosInf = PosInf"
| "js_add NegInf y = NegInf"
| "js_add x NegInf = NegInf"

definition js_sub :: "number \<Rightarrow> number \<Rightarrow> number" where
  "js_sub x y = js_add x (js_neg y)"

text \<open>The sign of a value that is not \<open>NaN\<close>: \<open>1\<close>, \<open>0\<close> or \<open>- 1\<close>.\<close>

fun sign_of :: "number \<Rightarrow> real" where
  "sign_of (Fin a) = sgn a"
| "sign_of PosInf = 1"
| "sign_of NegInf = - 1"
| "sign_of NaN = 0"

definition inf_of_sign :: "real \<Rightarrow> number" where
  "inf_of_sign s = (if s = 0 then NaN else if 0 < s then PosInf else NegInf)"

fun js_mul :: "number \<Rightarrow> number \<Rightarrow> number" where
  "js_mul NaN y = NaN"
| "js_mul x NaN = NaN"
| "js_mul (Fin a) (Fin b) = rnd (a * b)"
| "js_mul x y = inf_of_sign (sign_of x * sign_of y)"

text \<open>
  Division never raises. A finite value over zero is an infinity of the dividend's
  sign, zero over zero and infinity over infinity are \<open>NaN\<close>, and a finite value over
  an infinity is zero.
\<close>

fun js_div :: "number \<Rightarrow> number \<Rightarrow> number" where
  "js_div NaN y = NaN"
| "js_div x NaN = NaN"
| "js_div (Fin a) (Fin b) = (if b = 0 then inf_of_sign (sgn a) else rnd (a / b))"
| "js_div (Fin a) y = Fin 0"
| "js_div x (Fin b) = inf_of_sign (sign_of x * (if b < 0 then - 1 else 1))"
| "js_div x y = NaN"

text \<open>
  \<^verbatim>\<open>Math.round\<close>: the nearest integer, a tie going up. The result is exact: the nearest
  integer of a binary64 value is a binary64 value.
\<close>

fun Math_round :: "number \<Rightarrow> number" where
  "Math_round (Fin a) = Fin (of_int \<lfloor>a + 1 / 2\<rfloor>)"
| "Math_round x = x"

text \<open>\<^verbatim>\<open>Math.min\<close> and \<^verbatim>\<open>Math.max\<close> of two arguments: \<open>NaN\<close> when either is.\<close>

fun Math_min :: "number \<Rightarrow> number \<Rightarrow> number" where
  "Math_min NaN y = NaN"
| "Math_min x NaN = NaN"
| "Math_min (Fin a) (Fin b) = Fin (min a b)"
| "Math_min NegInf y = NegInf"
| "Math_min x NegInf = NegInf"
| "Math_min PosInf y = y"
| "Math_min x PosInf = x"

fun Math_max :: "number \<Rightarrow> number \<Rightarrow> number" where
  "Math_max NaN y = NaN"
| "Math_max x NaN = NaN"
| "Math_max (Fin a) (Fin b) = Fin (max a b)"
| "Math_max PosInf y = PosInf"
| "Math_max x PosInf = PosInf"
| "Math_max NegInf y = y"
| "Math_max x NegInf = x"

text \<open>The comparisons \<^verbatim>\<open><=\<close> and \<^verbatim>\<open><\<close> of two numbers: false when either is \<open>NaN\<close>.\<close>

fun js_le :: "number \<Rightarrow> number \<Rightarrow> bool" where
  "js_le NaN y = False"
| "js_le x NaN = False"
| "js_le (Fin a) (Fin b) = (a \<le> b)"
| "js_le NegInf y = True"
| "js_le x PosInf = True"
| "js_le PosInf y = False"
| "js_le x NegInf = False"

fun js_less :: "number \<Rightarrow> number \<Rightarrow> bool" where
  "js_less NaN y = False"
| "js_less x NaN = False"
| "js_less (Fin a) (Fin b) = (a < b)"
| "js_less x NegInf = False"
| "js_less NegInf y = True"
| "js_less PosInf y = False"
| "js_less x PosInf = True"

text \<open>Reading an array at index 0: \<^verbatim>\<open>undefined\<close> on an empty array, \<open>NaN\<close> in arithmetic.\<close>

fun at0 :: "number list \<Rightarrow> number" where
  "at0 [] = NaN"
| "at0 (x # xs) = x"

section \<open>Records\<close>

datatype platform = tiktok | etsy | gumroad

text \<open>
  \<^verbatim>\<open>Omit<Trend, 'id' | 'createdAt'>\<close> as the mock data fills it: the raw signal.
  \<^verbatim>\<open>Trend\<close> extends it with the computed fields; the field \<^verbatim>\<open>id\<close> is named \<open>id_t\<close>.
\<close>

record RawSignal =
  name :: string
  platform :: platform
  velocity :: number
  cogs :: number
  fees :: number
  shipping :: number

record Trend = RawSignal +
  id_t :: string
  profitScore :: number
  priceLadder :: "number list"
  margin :: number
  createdAt :: string

section \<open>Profit floor utilities\<close>

definition computeMargin :: "number \<Rightarrow> number \<Rightarrow> number \<Rightarrow> number \<Rightarrow> number" where
  "computeMargin price c f s =
     js_mul (js_div (js_sub (js_sub (js_sub price c) f) s) price) (lit 100)"

definition generatePriceLadder :: "number \<Rightarrow> number \<Rightarrow> number \<Rightarrow> number list" where
  "generatePriceLadder c f s =
     (let base = js_add (js_add c f) s
      in map (\<lambda>p. js_div (Math_round (js_mul p (lit 100))) (lit 100))
           [js_mul base (lit 1.3), js_mul base (lit 1.6), js_mul base (lit 2.0)])"

section \<open>Scoring a batch\<close>

fun digits :: "nat \<Rightarrow> string" where
  "digits n = (if n < 10 then [char_of (48 + n)] else digits (n div 10) @ [char_of (48 + n mod 10)])"

text \<open>
  The callback of \<^verbatim>\<open>mockData.map\<close> in \<^verbatim>\<open>fetchTrends\<close>. \<open>now\<close> is the value of
  \<^verbatim>\<open>new Date().toISOString()\<close> read during the call.
\<close>

definition enrich :: "string \<Rightarrow> RawSignal \<Rightarrow> nat \<Rightarrow> Trend" where
  "enrich now d idx =
     (let ladder = generatePriceLadder (cogs d) (fees d) (shipping d);
          m = computeMargin (at0 ladder) (cogs d) (fees d) (shipping d)
      in RawSignal.extend (d\<lparr>velocity := velocity d\<rparr>)
           (Trend.fields
              (''mock-'' @ digits idx)
              (Math_min (lit 100) (Math_round (js_add (js_mul (velocity d) (lit 0.2)) (js_mul m (lit 2)))))
              ladder
              m
              now))"

definition mockData :: "RawSignal list" where
  "mockData =
     [\<lparr>name = ''#LEDcollars'', platform = tiktok, velocity = lit 450,
        cogs = lit 2.5, fees = lit 0.8, shipping = lit 1.2\<rparr>,
      \<lparr>name = ''#tinyhats'', platform = etsy, velocity = lit 310,
        cogs = lit 1.8, fees = lit 0.6, shipping = lit 1.0\<rparr>,
      \<lparr>name = ''#AIstickers'', platform = gumroad, velocity = lit 280,
        cogs = lit 0.5, fees = lit 0.3, shipping = lit 0.2\<rparr>]"

text \<open>\<open>clock idx\<close> is the time read during the call for the element at index \<open>idx\<close>.\<close>

definition enrich_all :: "(nat \<Rightarrow> string) \<Rightarrow> RawSignal list \<Rightarrow> Trend list" where
  "enrich_all clock ds = map (\<lambda>(idx, d). enrich (clock idx) d idx) (enumerate 0 ds)"

declare digits.simps [simp del]

section \<open>Persistence\<close>

text \<open>
  \<^verbatim>\<open>fetchTrends\<close> makes two calls on the table \<^verbatim>\<open>trends\<close>. The client library and the
  database that carry them out are not part of the repository's sources; the table is
  modelled as the list of its rows, and each call by what the source asks for.
\<close>

text \<open>
  Modelled from the spec: \<^verbatim>\<open>upsert(enriched, { onConflict: 'name' })\<close>, whose
  implementation is missing from the sources. It follows the merge policy of the spec's
  Reconciler: each incoming row replaces the stored row of the same \<open>name\<close>, all fields
  overwritten, or is inserted when there is none.
\<close>

definition upsert_row :: "Trend list \<Rightarrow> Trend \<Rightarrow> Trend list" where
  "upsert_row table r =
     (if name r \<in> set (map name table)
      then map (\<lambda>t. if name t = name r then r else t) table
      else table @ [r])"

definition upsert :: "Trend list \<Rightarrow> Trend list \<Rightarrow> Trend list" where
  "upsert table batch = foldl upsert_row table batch"

text \<open>
  Modelled from the spec: the order of two scores in the reply to
  \<^verbatim>\<open>order('profitScore', { ascending: false })\<close>, whose implementation is missing from
  the sources. \<open>desc_ok x y\<close>: a row of score \<open>x\<close> may stand before a row of score \<open>y\<close>.
  Of two finite scores the greater or equal one stands first, the spec's
  \<^emph>\<open>sorted by profitScore descending\<close>. A score that is not finite cannot be stored as a
  number; neither the source nor the spec says where such a row stands, and the model
  admits every position for it.
\<close>

fun desc_ok :: "number \<Rightarrow> number \<Rightarrow> bool" where
  "desc_ok (Fin a) (Fin b) = (b \<le> a)"
| "desc_ok x y = True"

text \<open>
  Modelled from the spec: the rows that
  \<^verbatim>\<open>select('*').order('profitScore', { ascending: false })\<close> returns when it succeeds;
  the implementation is missing from the sources. The spec's Reconciler returns the full
  collection sorted by \<open>profitScore\<close> descending: all rows of the table, in an order
  that \<open>desc_ok\<close> admits. The source passes that one column and no second key, so the
  arrangement of rows of equal score is left to the database: the reply is a relation,
  not a function of the table.
\<close>

definition select_order_desc :: "Trend list \<Rightarrow> Trend list \<Rightarrow> bool" where
  "select_order_desc table out \<longleftrightarrow>
     mset out = mset table \<and> sorted_wrt (\<lambda>a b. desc_ok (profitScore a) (profitScore b)) out"

text \<open>
  Persisting a scored batch and reading the ranked collection back when both calls
  succeed: \<open>table'\<close> is the table afterwards, \<open>out\<close> the rows read.
\<close>

definition reconcile :: "Trend list \<Rightarrow> Trend list \<Rightarrow> Trend list \<Rightarrow> Trend list \<Rightarrow> bool" where
  "reconcile table batch table' out \<longleftrightarrow>
     table' = upsert table batch \<and> select_order_desc table' out"

text \<open>
  The \<^verbatim>\<open>data\<close> field of a response of the client: the rows, or \<^verbatim>\<open>null\<close> when the call
  failed. \<open>or_empty\<close> is the source's \<^verbatim>\<open>data || []\<close>.
\<close>

datatype 'a response = Data 'a | Null

fun or_empty :: "'a list response \<Rightarrow> 'a list" where
  "or_empty (Data rows) = rows"
| "or_empty Null = []"

text \<open>
  The last four statements of \<^verbatim>\<open>fetchTrends\<close> on a scored batch. The source awaits
  the upsert and ignores its result: the write is applied, or it failed and the table is
  as before. It then reads the table: \<open>data\<close> holds the rows, or is \<^verbatim>\<open>null\<close> when the
  read failed. \<open>shown\<close> is the collection handed to \<^verbatim>\<open>setTrends\<close>.
\<close>

definition persist_and_rank ::
  "Trend list \<Rightarrow> Trend list \<Rightarrow> Trend list \<Rightarrow> Trend list response \<Rightarrow> Trend list \<Rightarrow> bool" where
  "persist_and_rank table batch table' data shown \<longleftrightarrow>
     (table' = upsert table batch \<or> table' = table)
     \<and> (case data of Data rows \<Rightarrow> select_order_desc table' rows | Null \<Rightarrow> True)
     \<and> shown = or_empty data"

definition fetchTrends ::
  "(nat \<Rightarrow> string) \<Rightarrow> Trend list \<Rightarrow> Trend list \<Rightarrow> Trend list response \<Rightarrow> Trend list \<Rightarrow> bool" where
  "fetchTrends clock table table' data shown \<longleftrightarrow>
     persist_and_rank table (enrich_all clock mockData) table' data shown"

section \<open>What the spec says, for comparison\<close>

text \<open>The spec's \<open>clamp(x, lo, hi)\<close> and its formula for the profit score.\<close>

definition clamp :: "number \<Rightarrow> number \<Rightarrow> number \<Rightarrow> number" where
  "clamp x lo hi = Math_max lo (Math_min hi x)"

definition profitScore_spec :: "number \<Rightarrow> number \<Rightarrow> number" where
  "profitScore_spec v m =
     clamp (Math_round (js_add (js_mul v (lit 0.2)) (js_mul m (lit 2)))) (lit 0) (lit 100)"

text \<open>The spec's ranking: score descending, equal scores by ascending name.\<close>

definition ranked_spec :: "Trend list \<Rightarrow> bool" where
  "ranked_spec out \<longleftrightarrow>
     sorted_wrt (\<lambda>a b. desc_ok (profitScore a) (profitScore b)
        \<and> (profitScore a = profitScore b \<longrightarrow> name a \<le> name b)) out"

text \<open>An integer that is at most \<open>hi\<close>, and one between \<open>lo\<close> and \<open>hi\<close>.\<close>

fun int_at_most :: "int \<Rightarrow> number \<Rightarrow> bool" where
  "int_at_most hi (Fin a) = (of_int \<lfloor>a\<rfloor> = a \<and> a \<le> of_int hi)"
| "int_at_most hi x = False"

fun int_between :: "int \<Rightarrow> int \<Rightarrow> number \<Rightarrow> bool" where
  "int_between lo hi (Fin a) = (of_int \<lfloor>a\<rfloor> = a \<and> of_int lo \<le> a \<and> a \<le> of_int hi)"
| "int_between lo hi x = False"

section \<open>Rounding\<close>

text \<open>The definitions unfolded to evaluate \<open>rnd\<close> on a numeral.\<close>

lemmas rnd_eval = rnd_def rmag_def rval_def ulp_def bexp.simps rne_def Let_def lit_def

lemma bexp_bounds: "0 < x \<Longrightarrow> 2 powi bexp x \<le> x \<and> x < 2 powi (bexp x + 1)"
proof (induction x rule: bexp.induct)
  case (1 x)
  show ?case
  proof (cases "2 \<le> x")
    case True
    then have e: "bexp x = bexp (x / 2) + 1" using 1(3) by (subst bexp.simps) simp
    have "2 powi bexp (x / 2) \<le> x / 2 \<and> x / 2 < 2 powi (bexp (x / 2) + 1)"
      using 1(1) [of] True 1(3) by simp
    then show ?thesis unfolding e by (simp add: power_int_add)
  next
    case False
    show ?thesis
    proof (cases "x < 1")
      case True
      then have e: "bexp x = bexp (x * 2) - 1" using 1(3) False by (subst bexp.simps) simp
      have "2 powi bexp (x * 2) \<le> x * 2 \<and> x * 2 < 2 powi (bexp (x * 2) + 1)"
        using 1(2) False True 1(3) by simp
      then show ?thesis unfolding e by (simp add: power_int_add power_int_diff)
    next
      case x1: False
      then have "bexp x = 0" using False 1(3) by (subst bexp.simps) simp
      then show ?thesis using False x1 by simp
    qed
  qed
qed

lemma pow2_less_cancel: "(2::real) powi a < 2 powi b \<Longrightarrow> a < b"
proof (rule ccontr)
  assume h: "(2::real) powi a < 2 powi b" and "\<not> a < b"
  then have "b \<le> a" by simp
  then have "(2::real) powi b \<le> 2 powi a" by (intro power_int_increasing) simp_all
  with h show False by simp
qed

lemma bexp_unique:
  assumes "0 < x" and "2 powi e \<le> x" and "x < 2 powi (e + 1)"
  shows "bexp x = e"
proof -
  have b: "2 powi bexp x \<le> x" "x < 2 powi (bexp x + 1)"
    using bexp_bounds [OF assms(1)] by simp_all
  have "(2::real) powi bexp x < 2 powi (e + 1)" using b(1) assms(3) by linarith
  then have "bexp x < e + 1" by (rule pow2_less_cancel)
  moreover have "(2::real) powi e < 2 powi (bexp x + 1)" using b(2) assms(2) by linarith
  then have "e < bexp x + 1" by (rule pow2_less_cancel)
  ultimately show ?thesis by linarith
qed

lemma bexp_mono: "0 < x \<Longrightarrow> x \<le> y \<Longrightarrow> bexp x \<le> bexp y"
proof -
  assume x: "0 < x" and xy: "x \<le> y"
  have "2 powi bexp x \<le> x" using bexp_bounds [OF x] by simp
  moreover have "y < 2 powi (bexp y + 1)" using bexp_bounds [of y] x xy by simp
  ultimately have "(2::real) powi bexp x < 2 powi (bexp y + 1)" using xy by linarith
  then have "bexp x < bexp y + 1" by (rule pow2_less_cancel)
  then show ?thesis by simp
qed

lemma rne_cases: "rne q = \<lfloor>q\<rfloor> \<or> rne q = \<lfloor>q\<rfloor> + 1"
  by (simp add: rne_def Let_def)

lemma rne_err: "\<bar>of_int (rne q) - q\<bar> \<le> 1 / 2"
  unfolding rne_def Let_def by (auto simp: abs_le_iff; linarith)

lemma rne_of_int [simp]: "rne (of_int n) = n"
  by (simp add: rne_def)

lemma rne_ge: "of_int n \<le> q \<Longrightarrow> n \<le> rne q"
proof -
  assume "of_int n \<le> q"
  then have "n \<le> \<lfloor>q\<rfloor>" by (simp add: le_floor_iff)
  then show ?thesis using rne_cases [of q] by auto
qed

lemma rne_le: "q \<le> of_int n \<Longrightarrow> rne q \<le> n"
proof -
  assume h: "q \<le> of_int n"
  show ?thesis
  proof (cases "q = of_int n")
    case True
    then show ?thesis by simp
  next
    case False
    then have "q < of_int n" using h by simp
    then have "\<lfloor>q\<rfloor> < n" by (simp add: floor_less_iff)
    then show ?thesis using rne_cases [of q] by auto
  qed
qed

lemma rne_mono: "q \<le> r \<Longrightarrow> rne q \<le> rne r"
proof -
  assume h: "q \<le> r"
  have fl: "\<lfloor>q\<rfloor> \<le> \<lfloor>r\<rfloor>" using h by (rule floor_mono)
  show ?thesis
  proof (cases "\<lfloor>q\<rfloor> < \<lfloor>r\<rfloor>")
    case True
    then show ?thesis using rne_cases [of q] rne_cases [of r] by auto
  next
    case False
    then have e: "\<lfloor>q\<rfloor> = \<lfloor>r\<rfloor>" using fl by simp
    then have "q - of_int \<lfloor>q\<rfloor> \<le> r - of_int \<lfloor>r\<rfloor>" using h by simp
    then show ?thesis unfolding rne_def Let_def e by auto
  qed
qed

lemma rne_minus: "rne (- q) = - rne q"
proof (cases "q = of_int \<lfloor>q\<rfloor>")
  case True
  then obtain n where "q = of_int n" ..
  then show ?thesis by (simp flip: of_int_minus)
next
  case False
  then have f: "\<lfloor>- q\<rfloor> = - \<lfloor>q\<rfloor> - 1"
    by (simp add: floor_minus ceiling_altdef)
  show ?thesis unfolding rne_def Let_def f by auto
qed

lemma ulp_pos [simp]: "0 < ulp x"
  by (simp add: ulp_def)

lemma ulp_nonneg [simp]: "0 \<le> ulp x"
  by (simp add: ulp_def)

lemma ulp_nonzero [simp]: "ulp x \<noteq> 0"
  by (simp add: ulp_def)

lemma js_neg_neg [simp]: "js_neg (js_neg a) = a"
  by (cases a) simp_all

lemma ulp_at: "2 powi e \<le> x \<Longrightarrow> x < 2 powi (e + 1) \<Longrightarrow> - 1022 \<le> e \<Longrightarrow> ulp x = 2 powi (e - 52)"
proof -
  assume a: "2 powi e \<le> x" "x < 2 powi (e + 1)" "- 1022 \<le> e"
  have "0 < x" using a(1) by (smt (verit) zero_less_power_int zero_less_numeral)
  then have "bexp x = e" using a by (intro bexp_unique)
  then show ?thesis using a(3) by (simp add: ulp_def)
qed

lemma ulp_small: "0 < x \<Longrightarrow> x < 2 powi (- 1022) \<Longrightarrow> ulp x = 2 powi (- 1074)"
proof -
  assume a: "0 < x" "x < 2 powi (- 1022)"
  have "2 powi bexp x \<le> x" using bexp_bounds [OF a(1)] by simp
  then have "(2::real) powi bexp x < 2 powi (- 1022)" using a(2) by linarith
  then have "bexp x < - 1022" by (rule pow2_less_cancel)
  then show ?thesis by (simp add: ulp_def)
qed

text \<open>The scaled value lies in the integer range of a 53-bit significand.\<close>

lemma scaled_upper: "0 < x \<Longrightarrow> x / ulp x < 2 ^ 53"
proof -
  assume x: "0 < x"
  let ?e = "max (bexp x) (- 1022)"
  have "x < 2 powi (bexp x + 1)" using bexp_bounds [OF x] by simp
  also have "\<dots> \<le> 2 powi (?e + 1)" by (intro power_int_increasing) simp_all
  also have "\<dots> = 2 ^ 53 * ulp x"
    by (simp add: ulp_def power_int_add power_int_diff)
  finally show ?thesis by (simp add: pos_divide_less_eq)
qed

lemma scaled_lower: "0 < x \<Longrightarrow> - 1022 \<le> bexp x \<Longrightarrow> 2 ^ 52 \<le> x / ulp x"
proof -
  assume x: "0 < x" and n: "- 1022 \<le> bexp x"
  have "2 ^ 52 * ulp x = 2 powi bexp x" using n
    by (simp add: ulp_def max_def power_int_diff)
  also have "\<dots> \<le> x" using bexp_bounds [OF x] by simp
  finally show ?thesis by (simp add: pos_le_divide_eq)
qed

lemma rval_err: "\<bar>rval x - x\<bar> \<le> ulp x / 2"
proof -
  have "\<bar>of_int (rne (x / ulp x)) - x / ulp x\<bar> * ulp x \<le> 1 / 2 * ulp x"
    by (intro mult_right_mono rne_err) simp
  moreover have "\<bar>of_int (rne (x / ulp x)) - x / ulp x\<bar> * ulp x = \<bar>rval x - x\<bar>"
  proof -
    have "rval x - x = (of_int (rne (x / ulp x)) - x / ulp x) * ulp x"
      by (simp add: rval_def algebra_simps)
    then show ?thesis by (simp add: abs_mult)
  qed
  ultimately show ?thesis by simp
qed

lemma rval_nonneg: "0 < x \<Longrightarrow> 0 \<le> rval x"
proof -
  assume "0 < x"
  then have "of_int 0 \<le> x / ulp x" by simp
  then have "0 \<le> rne (x / ulp x)" by (rule rne_ge)
  then show ?thesis by (simp add: rval_def)
qed

lemma rval_upper: "0 < x \<Longrightarrow> rval x \<le> 2 ^ 53 * ulp x"
proof -
  assume x: "0 < x"
  have "x / ulp x \<le> of_int (2 ^ 53)" using scaled_upper [OF x] by simp
  then have "rne (x / ulp x) \<le> 2 ^ 53" by (rule rne_le)
  then have "(of_int (rne (x / ulp x)) :: real) \<le> of_int (2 ^ 53)" by (simp only: of_int_le_iff)
  then have "(of_int (rne (x / ulp x)) :: real) \<le> 2 ^ 53" by simp
  then show ?thesis by (simp add: rval_def)
qed

lemma rval_lower: "0 < x \<Longrightarrow> - 1022 \<le> bexp x \<Longrightarrow> 2 ^ 52 * ulp x \<le> rval x"
proof -
  assume x: "0 < x" and n: "- 1022 \<le> bexp x"
  have "of_int (2 ^ 52) \<le> x / ulp x" using scaled_lower [OF x n] by simp
  then have "2 ^ 52 \<le> rne (x / ulp x)" by (rule rne_ge)
  then have "(of_int (2 ^ 52) :: real) \<le> of_int (rne (x / ulp x))" by (simp only: of_int_le_iff)
  then have "(2 ^ 52 :: real) \<le> of_int (rne (x / ulp x))" by simp
  then show ?thesis by (simp add: rval_def)
qed

lemma ulp_mono: "0 < x \<Longrightarrow> x \<le> y \<Longrightarrow> ulp x \<le> ulp y"
  unfolding ulp_def using bexp_mono [of x y]
  by (intro power_int_increasing) simp_all

lemma rval_mono: "0 < x \<Longrightarrow> x \<le> y \<Longrightarrow> rval x \<le> rval y"
proof -
  assume x: "0 < x" and xy: "x \<le> y"
  then have y: "0 < y" by simp
  have em: "max (bexp x) (- 1022) \<le> max (bexp y) (- 1022)"
    using bexp_mono [OF x xy] by simp
  show ?thesis
  proof (cases "max (bexp x) (- 1022) = max (bexp y) (- 1022)")
    case True
    then have u: "ulp x = ulp y" by (simp add: ulp_def)
    have "x / ulp y \<le> y / ulp y" using xy by (simp add: divide_right_mono)
    then have "rne (x / ulp y) \<le> rne (y / ulp y)" by (rule rne_mono)
    then have "(of_int (rne (x / ulp y)) :: real) \<le> of_int (rne (y / ulp y))" by simp
    then show ?thesis unfolding rval_def u by (intro mult_right_mono) simp_all
  next
    case False
    then have lt: "max (bexp x) (- 1022) < max (bexp y) (- 1022)" using em by linarith
    then have n: "- 1022 \<le> bexp y" and ey: "max (bexp y) (- 1022) = bexp y" by linarith+
    have "max (bexp x) (- 1022) + 1 \<le> bexp y" using lt ey by linarith
    then have "(2::real) powi (max (bexp x) (- 1022) + 1) \<le> 2 powi bexp y"
      by (intro power_int_increasing) simp_all
    moreover have "2 ^ 53 * ulp x = 2 powi (max (bexp x) (- 1022) + 1)"
      by (simp add: ulp_def power_int_add power_int_diff)
    moreover have "2 ^ 52 * ulp y = 2 powi bexp y"
      using n by (simp add: ulp_def max_def power_int_diff)
    ultimately have "2 ^ 53 * ulp x \<le> 2 ^ 52 * ulp y" by simp
    then show ?thesis using rval_upper [OF x] rval_lower [OF y n] by linarith
  qed
qed

lemma rmag_mono: "0 < x \<Longrightarrow> x \<le> y \<Longrightarrow> js_le (rmag x) (rmag y)"
  using rval_mono [of x y] by (simp add: rmag_def)

lemma rmag_nonneg: "0 < x \<Longrightarrow> js_le (Fin 0) (rmag x)"
  using rval_nonneg [of x] by (simp add: rmag_def)

lemma js_le_neg: "js_le a b \<Longrightarrow> js_le (js_neg b) (js_neg a)"
  by (cases a; cases b) simp_all

lemma js_le_trans: "js_le a b \<Longrightarrow> js_le b c \<Longrightarrow> js_le a c"
  by (cases a; cases b; cases c) simp_all

lemma rnd_minus: "rnd (- x) = js_neg (rnd x)"
  by (simp add: rnd_def)

lemma rnd_nonneg: "0 \<le> x \<Longrightarrow> js_le (Fin 0) (rnd x)"
  using rmag_nonneg [of x] by (simp add: rnd_def)

lemma rnd_nonpos: "x \<le> 0 \<Longrightarrow> js_le (rnd x) (Fin 0)"
  using js_le_neg [OF rnd_nonneg [of "- x"]] by (simp add: rnd_minus)

lemma rnd_mono: "x \<le> y \<Longrightarrow> js_le (rnd x) (rnd y)"
proof -
  assume xy: "x \<le> y"
  consider "0 < x" | "x \<le> 0" "0 \<le> y" | "y < 0" by linarith
  then show ?thesis
  proof cases
    case 1
    then show ?thesis using xy rmag_mono [of x y] by (simp add: rnd_def)
  next
    case 2
    then show ?thesis using js_le_trans [OF rnd_nonpos rnd_nonneg] by simp
  next
    case 3
    then have "js_le (rmag (- y)) (rmag (- x))" using xy by (intro rmag_mono) simp_all
    then show ?thesis using 3 xy by (simp add: rnd_def js_le_neg)
  qed
qed

section \<open>Order and arithmetic\<close>

lemma js_le_refl: "x \<noteq> NaN \<Longrightarrow> js_le x x"
  by (cases x) simp_all

lemma js_le_not_NaN: "js_le x y \<Longrightarrow> x \<noteq> NaN \<and> y \<noteq> NaN"
  by (cases x; cases y) simp_all

lemma js_less_le: "js_less x y \<Longrightarrow> js_le x y"
  by (cases x; cases y) simp_all

lemma js_le_less_trans: "js_le a b \<Longrightarrow> js_less b c \<Longrightarrow> js_less a c"
  by (cases a; cases b; cases c) simp_all

lemma js_less_le_trans: "js_less a b \<Longrightarrow> js_le b c \<Longrightarrow> js_less a c"
  by (cases a; cases b; cases c) simp_all

lemma js_le_PosInf [simp]: "js_le x PosInf \<longleftrightarrow> x \<noteq> NaN"
  by (cases x) simp_all

lemma js_le_NegInf [simp]: "js_le NegInf x \<longleftrightarrow> x \<noteq> NaN"
  by (cases x) simp_all

lemma rnd_not_NaN [simp]: "rnd x \<noteq> NaN"
  using rnd_mono [of x x] by (auto dest: js_le_not_NaN)


lemma js_add_mono_right: "js_le x y \<Longrightarrow> js_le (js_add (Fin a) x) (js_add (Fin a) y)"
  by (cases x; cases y) (simp_all add: rnd_mono)





lemma Math_round_mono: "js_le x y \<Longrightarrow> js_le (Math_round x) (Math_round y)"
  by (cases x; cases y) (simp_all add: floor_mono)

lemma Math_min_mono: "js_le x y \<Longrightarrow> js_le (Math_min (Fin k) x) (Math_min (Fin k) y)"
  by (cases x; cases y) (simp_all add: min_def)

lemma lit_values:
  "lit 0 = Fin 0" "lit 2 = Fin 2" "lit 100 = Fin 100" "lit 1 = Fin 1"
  by (simp_all add: rnd_eval)


section \<open>Margin Calculator\<close>

lemma js_sub_not_NaN: "x \<noteq> NaN \<Longrightarrow> js_sub x (Fin b) \<noteq> NaN"
  by (cases x) (simp_all add: js_sub_def)

lemma js_div_not_NaN: "x \<noteq> NaN \<Longrightarrow> 0 < p \<Longrightarrow> js_div x (Fin p) \<noteq> NaN"
  by (cases x) (simp_all add: inf_of_sign_def)

lemma js_mul_not_NaN: "x \<noteq> NaN \<Longrightarrow> 0 < k \<Longrightarrow> js_mul x (Fin k) \<noteq> NaN"
  by (cases x) (simp_all add: inf_of_sign_def)

lemma margin_not_NaN: "0 < p \<Longrightarrow> computeMargin (Fin p) (Fin c) (Fin f) (Fin s) \<noteq> NaN"
  by (simp add: computeMargin_def lit_values js_sub_not_NaN js_div_not_NaN js_mul_not_NaN)

lemma margin_exact:
  assumes "p \<noteq> 0" and "is_double (p - c)" and "is_double (p - c - f)" and "is_double (p - c - f - s)"
    and "is_double ((p - c - f - s) / p)" and "is_double ((p - c - f - s) / p * 100)"
  shows "computeMargin (Fin p) (Fin c) (Fin f) (Fin s) = Fin ((p - c - f - s) / p * 100)"
  using assms by (simp add: computeMargin_def js_sub_def lit_values is_double_def)







text \<open>
  Claim C7. For every finite price \<open>> 0\<close> and all finite cost components,
  \<open>computeMargin\<close> returns the value of the expression
  \<open>((price - cogs - fees - shipping) / price) * 100\<close> as JavaScript evaluates it: the three
  subtractions from left to right, then the quotient, then the product, each result
  rounded to a binary64 value. The result is a number, never \<open>NaN\<close>. Whenever every
  intermediate result is a binary64 value, so that no step rounds, it is the real value of
  the formula. It is a function of its four arguments alone: the source reads and writes
  nothing else, so the embedding takes no state and returns none, and equal arguments
  give equal results.
\<close>

theorem computeMargin_formula:
  assumes "0 < price"
  shows "computeMargin (Fin price) (Fin c) (Fin f) (Fin s)
           = js_mul (js_div (js_sub (js_sub (js_sub (Fin price) (Fin c)) (Fin f)) (Fin s)) (Fin price))
                (lit 100)
    \<and> computeMargin (Fin price) (Fin c) (Fin f) (Fin s) \<noteq> NaN
    \<and> (is_double (price - c) \<and> is_double (price - c - f) \<and> is_double (price - c - f - s)
         \<and> is_double ((price - c - f - s) / price) \<and> is_double ((price - c - f - s) / price * 100)
        \<longrightarrow> computeMargin (Fin price) (Fin c) (Fin f) (Fin s)
             = Fin (((price - c - f - s) / price) * 100))
    \<and> (\<forall>p' c' f' s'. p' = Fin price \<and> c' = Fin c \<and> f' = Fin f \<and> s' = Fin s
         \<longrightarrow> computeMargin p' c' f' s' = computeMargin (Fin price) (Fin c) (Fin f) (Fin s))"
proof -
  have "computeMargin (Fin price) (Fin c) (Fin f) (Fin s)
      = js_mul (js_div (js_sub (js_sub (js_sub (Fin price) (Fin c)) (Fin f)) (Fin s)) (Fin price))
          (lit 100)"
    by (simp only: computeMargin_def)
  moreover have "computeMargin (Fin price) (Fin c) (Fin f) (Fin s) \<noteq> NaN"
    using assms by (rule margin_not_NaN)
  moreover have "computeMargin (Fin price) (Fin c) (Fin f) (Fin s)
      = Fin (((price - c - f - s) / price) * 100)"
    if "is_double (price - c)" and "is_double (price - c - f)" and "is_double (price - c - f - s)"
      and "is_double ((price - c - f - s) / price)" and "is_double ((price - c - f - s) / price * 100)"
    using assms that by (intro margin_exact) simp_all
  ultimately show ?thesis by blast
qed

theorem computeMargin_formula_witness:
  "(0 :: real) < 2
   \<and> is_double (2 - 1) \<and> is_double (2 - 1 - 1 / 2) \<and> is_double (2 - 1 - 1 / 2 - 1 / 4)
   \<and> is_double ((2 - 1 - 1 / 2 - 1 / 4) / 2) \<and> is_double ((2 - 1 - 1 / 2 - 1 / 4) / 2 * 100)
   \<and> computeMargin (Fin 2) (Fin 1) (Fin (1 / 2)) (Fin (1 / 4)) = Fin (25 / 2)
   \<and> computeMargin (Fin 2) (Fin 1) (Fin (1 / 2)) (Fin (1 / 4)) \<noteq> NaN"
proof -
  have d: "is_double (2 - 1)" "is_double (2 - 1 - 1 / 2)" "is_double (2 - 1 - 1 / 2 - 1 / 4)"
    "is_double ((2 - 1 - 1 / 2 - 1 / 4) / 2)" "is_double ((2 - 1 - 1 / 2 - 1 / 4) / 2 * 100)"
    by (simp_all add: is_double_def rnd_eval)
  have p: "(0 :: real) < 2" by simp
  note t = computeMargin_formula [OF p, of 1 "1 / 2" "1 / 4"]
  have "computeMargin (Fin 2) (Fin 1) (Fin (1 / 2)) (Fin (1 / 4))
      = Fin (((2 - 1 - 1 / 2 - 1 / 4) / 2) * 100)"
    using t d by blast
  then have v: "computeMargin (Fin 2) (Fin 1) (Fin (1 / 2)) (Fin (1 / 4)) = Fin (25 / 2)"
    by simp
  have n: "computeMargin (Fin 2) (Fin 1) (Fin (1 / 2)) (Fin (1 / 4)) \<noteq> NaN"
    using t by blast
  from d p v n show ?thesis by simp
qed




section \<open>Trend Scorer\<close>

text \<open>The definitions unfolded to evaluate a scored record on a concrete raw signal.\<close>

lemmas ev = enrich_def Let_def generatePriceLadder_def computeMargin_def js_sub_def
  RawSignal.extend_def Trend.fields_def inf_of_sign_def

lemma enrich_fields:
  "priceLadder (enrich now d idx) = generatePriceLadder (cogs d) (fees d) (shipping d)"
  "margin (enrich now d idx) =
     computeMargin (at0 (generatePriceLadder (cogs d) (fees d) (shipping d))) (cogs d) (fees d) (shipping d)"
  "profitScore (enrich now d idx) =
     Math_min (lit 100) (Math_round (js_add (js_mul (velocity d) (lit 0.2)) (js_mul (margin (enrich now d idx)) (lit 2))))"
  "id_t (enrich now d idx) = ''mock-'' @ digits idx"
  "createdAt (enrich now d idx) = now"
  by (simp_all add: enrich_def Let_def RawSignal.extend_def Trend.fields_def)

lemma enrich_raw:
  "name (enrich now d idx) = name d"
  "platform (enrich now d idx) = platform d"
  "velocity (enrich now d idx) = velocity d"
  "cogs (enrich now d idx) = cogs d"
  "fees (enrich now d idx) = fees d"
  "shipping (enrich now d idx) = shipping d"
  by (simp_all add: enrich_def Let_def RawSignal.extend_def Trend.fields_def)

lemma ladder_sum:
  "js_add (js_add c1 f1) s1 = js_add (js_add c2 f2) s2 \<Longrightarrow>
   generatePriceLadder c1 f1 s1 = generatePriceLadder c2 f2 s2"
  by (simp add: generatePriceLadder_def)

lemma min_clamp:
  "Math_min (lit 100) r = clamp r (lit 0) (lit 100) \<longleftrightarrow> \<not> js_less r (lit 0)"
  by (cases r) (auto simp: clamp_def min_def max_def lit_values)

text \<open>
  Claim C1, as stated, fails: the code bounds the rounded sum above
  (\<^verbatim>\<open>Math.min(100, ...)\<close>) and applies no lower bound. For costs of 0.005, 0.003 and 0.003
  the first ladder price is 0.01, below the cost sum 0.011, so the margin is -10 and, at
  velocity 5, the score is \<open>round(1 - 20) = -19\<close>, where the spec's formula gives 0.
\<close>

theorem profitScore_clamp_counterexample:
  "profitScore (enrich ''2026-01-01T00:00:00.000Z''
      \<lparr>name = ''#pennybeads'', platform = etsy, velocity = lit 5,
       cogs = lit 0.005, fees = lit 0.003, shipping = lit 0.003\<rparr> 0) = Fin (- 19)
   \<and> profitScore_spec (lit 5) (margin (enrich ''2026-01-01T00:00:00.000Z''
      \<lparr>name = ''#pennybeads'', platform = etsy, velocity = lit 5,
       cogs = lit 0.005, fees = lit 0.003, shipping = lit 0.003\<rparr> 0)) = Fin 0"
  by (simp add: ev profitScore_spec_def clamp_def rnd_eval)

text \<open>
  Claim C1, amended. The profit score is \<open>min(100, round(velocity * 0.2 + margin * 2))\<close>:
  the two products are summed, the sum is rounded, and the rounded sum is bounded above
  by 100. It is not bounded below: the score equals the spec's
  \<open>clamp(round(velocity * 0.2 + margin * 2), 0, 100)\<close> exactly when the rounded sum is not
  below 0.
\<close>

theorem profitScore_no_lower_clamp:
  "profitScore (enrich now d idx) =
     Math_min (lit 100)
       (Math_round (js_add (js_mul (velocity d) (lit 0.2)) (js_mul (margin (enrich now d idx)) (lit 2))))
   \<and> (profitScore (enrich now d idx) = profitScore_spec (velocity d) (margin (enrich now d idx))
        \<longleftrightarrow> \<not> js_less (Math_round (js_add (js_mul (velocity d) (lit 0.2))
                                     (js_mul (margin (enrich now d idx)) (lit 2)))) (lit 0))"
  by (simp only: enrich_fields(3) profitScore_spec_def min_clamp simp_thms)

text \<open>
  Claim C9. The scored record carries the raw signal's \<open>name\<close>, \<open>platform\<close>,
  \<open>velocity\<close>, \<open>cogs\<close>, \<open>fees\<close> and \<open>shipping\<close> unchanged: cut back to the raw fields
  it is the raw signal it was made from, for one signal and for every signal of a
  batch. The raw signal is a value: scoring returns a new record and changes nothing.
\<close>

theorem enrich_keeps_raw_fields:
  "name (enrich now d idx) = name d
   \<and> platform (enrich now d idx) = platform d
   \<and> velocity (enrich now d idx) = velocity d
   \<and> cogs (enrich now d idx) = cogs d
   \<and> fees (enrich now d idx) = fees d
   \<and> shipping (enrich now d idx) = shipping d
   \<and> RawSignal.truncate (enrich now d idx) = d
   \<and> map RawSignal.truncate (enrich_all clock ds) = ds"
proof -
  have t: "RawSignal.truncate (enrich now d idx) = d" for now d idx
    by (simp add: enrich_def Let_def RawSignal.extend_def Trend.fields_def RawSignal.truncate_def)
  have e: "RawSignal.truncate \<circ> (\<lambda>(idx, d). enrich (clock idx) d idx) = snd"
    by (auto simp: t fun_eq_iff)
  have "map RawSignal.truncate (enrich_all clock ds) = ds"
    unfolding enrich_all_def map_map e by simp
  with t show ?thesis by (simp add: enrich_raw)
qed

text \<open>
  Claim C10, as stated, fails. The cost components 1.34, 0.1, 0.1 and 1.37, 0.11, 0.06
  have the same computed sum \<open>cogs + fees + shipping\<close> and so the same ladder, beginning
  at 2. The margin subtracts the components from the price one after the other, and the
  rounded differences are not the same: the margins are 23 and 22.999999999999996, and
  at velocity 2.5 the profit scores are 47 and 46.
\<close>

theorem cost_sum_counterexample:
  "velocity \<lparr>name = ''#a'', platform = etsy, velocity = lit 2.5,
              cogs = lit 1.34, fees = lit 0.1, shipping = lit 0.1\<rparr>
     = velocity \<lparr>name = ''#b'', platform = etsy, velocity = lit 2.5,
              cogs = lit 1.37, fees = lit 0.11, shipping = lit 0.06\<rparr>
   \<and> js_add (js_add (lit 1.34) (lit 0.1)) (lit 0.1) = js_add (js_add (lit 1.37) (lit 0.11)) (lit 0.06)
   \<and> at0 (generatePriceLadder (lit 1.34) (lit 0.1) (lit 0.1)) = Fin 2
   \<and> at0 (generatePriceLadder (lit 1.37) (lit 0.11) (lit 0.06)) = Fin 2
   \<and> margin (enrich ''2026-01-01T00:00:00.000Z''
        \<lparr>name = ''#a'', platform = etsy, velocity = lit 2.5,
         cogs = lit 1.34, fees = lit 0.1, shipping = lit 0.1\<rparr> 0) = Fin 23
   \<and> margin (enrich ''2026-01-01T00:00:00.000Z''
        \<lparr>name = ''#b'', platform = etsy, velocity = lit 2.5,
         cogs = lit 1.37, fees = lit 0.11, shipping = lit 0.06\<rparr> 0)
       = Fin (6473924464345087 / 2 ^ 48)
   \<and> profitScore (enrich ''2026-01-01T00:00:00.000Z''
        \<lparr>name = ''#a'', platform = etsy, velocity = lit 2.5,
         cogs = lit 1.34, fees = lit 0.1, shipping = lit 0.1\<rparr> 0) = Fin 47
   \<and> profitScore (enrich ''2026-01-01T00:00:00.000Z''
        \<lparr>name = ''#b'', platform = etsy, velocity = lit 2.5,
         cogs = lit 1.37, fees = lit 0.11, shipping = lit 0.06\<rparr> 0) = Fin 46"
  by (simp add: ev rnd_eval)

text \<open>
  Claim C10, amended. The price ladder depends on the cost components only through the
  sum \<open>(cogs + fees) + shipping\<close> as the code computes it: two raw signals with equal
  computed sums get the same ladder. The margin and the profit score depend on the cost
  components through that sum and through the difference
  \<open>((price - cogs) - fees) - shipping\<close> as the code computes it: two raw signals of equal
  velocity whose computed sums are equal and whose computed differences from the first
  ladder price are equal get the same margin and profit score, whatever their other
  fields, their index and the time.
\<close>

theorem depends_on_computed_sum_and_difference:
  assumes "js_add (js_add (cogs d1) (fees d1)) (shipping d1) = js_add (js_add (cogs d2) (fees d2)) (shipping d2)"
  shows "generatePriceLadder (cogs d1) (fees d1) (shipping d1) = generatePriceLadder (cogs d2) (fees d2) (shipping d2)
    \<and> priceLadder (enrich now1 d1 idx1) = priceLadder (enrich now2 d2 idx2)
    \<and> (velocity d1 = velocity d2
        \<and> js_sub (js_sub (js_sub (at0 (priceLadder (enrich now1 d1 idx1))) (cogs d1)) (fees d1)) (shipping d1)
          = js_sub (js_sub (js_sub (at0 (priceLadder (enrich now2 d2 idx2))) (cogs d2)) (fees d2)) (shipping d2)
        \<longrightarrow> margin (enrich now1 d1 idx1) = margin (enrich now2 d2 idx2)
          \<and> profitScore (enrich now1 d1 idx1) = profitScore (enrich now2 d2 idx2))"
proof -
  have l: "generatePriceLadder (cogs d1) (fees d1) (shipping d1) = generatePriceLadder (cogs d2) (fees d2) (shipping d2)"
    using assms by (rule ladder_sum)
  have m: "margin (enrich now1 d1 idx1) = margin (enrich now2 d2 idx2)"
    if "js_sub (js_sub (js_sub (at0 (priceLadder (enrich now1 d1 idx1))) (cogs d1)) (fees d1)) (shipping d1)
          = js_sub (js_sub (js_sub (at0 (priceLadder (enrich now2 d2 idx2))) (cogs d2)) (fees d2)) (shipping d2)"
    using that l by (simp add: enrich_fields(1,2) computeMargin_def)
  have s: "profitScore (enrich now1 d1 idx1) = profitScore (enrich now2 d2 idx2)"
    if "velocity d1 = velocity d2" and "margin (enrich now1 d1 idx1) = margin (enrich now2 d2 idx2)"
    using that by (simp only: enrich_fields(3))
  from l m s show ?thesis by (simp add: enrich_fields(1))
qed

theorem depends_on_computed_sum_and_difference_witness:
  "js_add (js_add (lit 0.5) (lit 0.25)) (lit 0.25) = js_add (js_add (lit 0.25) (lit 0.25)) (lit 0.5)
   \<and> generatePriceLadder (lit 0.5) (lit 0.25) (lit 0.25) = generatePriceLadder (lit 0.25) (lit 0.25) (lit 0.5)
   \<and> js_sub (js_sub (js_sub (at0 (generatePriceLadder (lit 0.5) (lit 0.25) (lit 0.25))) (lit 0.5)) (lit 0.25)) (lit 0.25)
     = js_sub (js_sub (js_sub (at0 (generatePriceLadder (lit 0.25) (lit 0.25) (lit 0.5))) (lit 0.25)) (lit 0.25)) (lit 0.5)
   \<and> margin (enrich ''2026-01-01T00:00:00.000Z''
         \<lparr>name = ''#AIstickers'', platform = gumroad, velocity = lit 280,
          cogs = lit 0.5, fees = lit 0.25, shipping = lit 0.25\<rparr> 2)
     = margin (enrich ''2026-02-02T00:00:00.000Z''
         \<lparr>name = ''#tinyhats'', platform = etsy, velocity = lit 280,
          cogs = lit 0.25, fees = lit 0.25, shipping = lit 0.5\<rparr> 1)
   \<and> profitScore (enrich ''2026-01-01T00:00:00.000Z''
         \<lparr>name = ''#AIstickers'', platform = gumroad, velocity = lit 280,
          cogs = lit 0.5, fees = lit 0.25, shipping = lit 0.25\<rparr> 2)
     = profitScore (enrich ''2026-02-02T00:00:00.000Z''
         \<lparr>name = ''#tinyhats'', platform = etsy, velocity = lit 280,
          cogs = lit 0.25, fees = lit 0.25, shipping = lit 0.5\<rparr> 1)"
proof -
  let ?d1 = "\<lparr>name = ''#AIstickers'', platform = gumroad, velocity = lit 280,
          cogs = lit 0.5, fees = lit 0.25, shipping = lit 0.25\<rparr>"
  let ?d2 = "\<lparr>name = ''#tinyhats'', platform = etsy, velocity = lit 280,
          cogs = lit 0.25, fees = lit 0.25, shipping = lit 0.5\<rparr>"
  have h: "js_add (js_add (cogs ?d1) (fees ?d1)) (shipping ?d1) = js_add (js_add (cogs ?d2) (fees ?d2)) (shipping ?d2)"
    by (simp add: rnd_eval)
  have n: "js_sub (js_sub (js_sub (at0 (generatePriceLadder (lit 0.5) (lit 0.25) (lit 0.25))) (lit 0.5)) (lit 0.25)) (lit 0.25)
     = js_sub (js_sub (js_sub (at0 (generatePriceLadder (lit 0.25) (lit 0.25) (lit 0.5))) (lit 0.25)) (lit 0.25)) (lit 0.5)"
    by (simp add: ev rnd_eval)
  note t = depends_on_computed_sum_and_difference [OF h, of "''2026-01-01T00:00:00.000Z''" 2 "''2026-02-02T00:00:00.000Z''" 1]
  have l: "generatePriceLadder (lit 0.5) (lit 0.25) (lit 0.25) = generatePriceLadder (lit 0.25) (lit 0.25) (lit 0.5)"
    using t by simp
  have v: "velocity ?d1 = velocity ?d2" by simp
  have n': "js_sub (js_sub (js_sub (at0 (priceLadder (enrich ''2026-01-01T00:00:00.000Z'' ?d1 2))) (cogs ?d1)) (fees ?d1)) (shipping ?d1)
          = js_sub (js_sub (js_sub (at0 (priceLadder (enrich ''2026-02-02T00:00:00.000Z'' ?d2 1))) (cogs ?d2)) (fees ?d2)) (shipping ?d2)"
    using n by (simp add: enrich_fields(1))
  from t v n' have "margin (enrich ''2026-01-01T00:00:00.000Z'' ?d1 2) = margin (enrich ''2026-02-02T00:00:00.000Z'' ?d2 1)
          \<and> profitScore (enrich ''2026-01-01T00:00:00.000Z'' ?d1 2) = profitScore (enrich ''2026-02-02T00:00:00.000Z'' ?d2 1)"
    by blast
  with h l n show ?thesis by simp
qed

section \<open>Reconciler\<close>

lemma names_upsert_row:
  "map name (upsert_row table r) =
     (if name r \<in> set (map name table) then map name table else map name table @ [name r])"
  by (induction table) (auto simp: upsert_row_def)

lemma distinct_upsert_row:
  "distinct (map name table) \<Longrightarrow> distinct (map name (upsert_row table r))"
  by (simp add: names_upsert_row)

lemma in_upsert_row: "r \<in> set (upsert_row table r)"
  by (auto simp: upsert_row_def)

lemma kept_upsert_row:
  "t \<in> set table \<Longrightarrow> name t \<noteq> name r \<Longrightarrow> t \<in> set (upsert_row table r)"
  by (auto simp: upsert_row_def)

lemma set_upsert_row:
  "set (upsert_row table r) = insert r {t \<in> set table. name t \<noteq> name r}"
  by (auto simp: upsert_row_def image_iff)

lemma distinct_upsert:
  "distinct (map name table) \<Longrightarrow> distinct (map name (upsert table batch))"
  unfolding upsert_def
  by (induction batch arbitrary: table) (simp_all add: distinct_upsert_row)

lemma kept_upsert:
  "t \<in> set table \<Longrightarrow> name t \<notin> name ` set batch \<Longrightarrow> t \<in> set (upsert table batch)"
  unfolding upsert_def
  by (induction batch arbitrary: table) (auto simp: kept_upsert_row)

lemma in_upsert:
  "distinct (map name batch) \<Longrightarrow> r \<in> set batch \<Longrightarrow> r \<in> set (upsert table batch)"
proof (induction batch arbitrary: table)
  case Nil
  then show ?case by simp
next
  case (Cons x xs)
  show ?case
  proof (cases "r = x")
    case True
    have "x \<in> set (upsert (upsert_row table x) xs)"
      using Cons.prems(1) by (intro kept_upsert) (auto simp: in_upsert_row)
    then show ?thesis using True by (simp add: upsert_def)
  next
    case False
    then have "r \<in> set (upsert (upsert_row table x) xs)"
      using Cons by simp
    then show ?thesis by (simp add: upsert_def)
  qed
qed

lemma names_upsert:
  "name ` set (upsert table batch) = name ` set table \<union> name ` set batch"
  unfolding upsert_def
proof (induction batch arbitrary: table)
  case Nil
  then show ?case by simp
next
  case (Cons x xs)
  have "name ` set (upsert_row table x) = insert (name x) (name ` set table)"
    unfolding set_upsert_row by force
  then show ?case using Cons.IH [of "upsert_row table x"] by auto
qed

lemma from_upsert:
  "x \<in> set (upsert table batch) \<Longrightarrow> x \<in> set batch \<or> (x \<in> set table \<and> name x \<notin> name ` set batch)"
  unfolding upsert_def
proof (induction batch arbitrary: table)
  case Nil
  then show ?case by simp
next
  case (Cons y ys)
  from Cons.prems have "x \<in> set (foldl upsert_row (upsert_row table y) ys)" by simp
  from Cons.IH [OF this] show ?case by (auto simp: set_upsert_row)
qed

lemma reconcile_rows:
  assumes "distinct (map name table)" and "reconcile table batch table' out"
  shows "distinct (map name out)"
    and "name ` set out = name ` set table \<union> name ` set batch"
    and "t \<in> set table \<Longrightarrow> name t \<notin> name ` set batch \<Longrightarrow> filter (\<lambda>x. name x = name t) out = [t]"
    and "distinct (map name batch) \<Longrightarrow> r \<in> set batch \<Longrightarrow> filter (\<lambda>x. name x = name r) out = [r]"
    and "distinct (map name table')"
    and "x \<in> set out \<Longrightarrow> x \<in> set batch \<or> (x \<in> set table \<and> name x \<notin> name ` set batch)"
proof -
  have t': "table' = upsert table batch" and m: "mset out = mset (upsert table batch)"
    using assms(2) by (simp_all add: reconcile_def select_order_desc_def)
  from m have so: "set out = set (upsert table batch)" by (rule mset_eq_setD)
  show dt: "distinct (map name table')"
    unfolding t' using assms(1) by (rule distinct_upsert)
  have "mset (map name out) = mset (map name (upsert table batch))" using m by simp
  then show d: "distinct (map name out)"
    using dt t' by (metis mset_eq_imp_distinct_iff)
  have one: "filter (\<lambda>t. name t = name r) out = [r]" if "r \<in> set out" for r
    using d that
  proof (induction out)
    case Nil
    then show ?case by simp
  next
    case (Cons x xs)
    then show ?case by (auto simp: filter_empty_conv image_iff)
  qed
  show "name ` set out = name ` set table \<union> name ` set batch"
    by (simp add: so names_upsert)
  show "filter (\<lambda>x. name x = name t) out = [t]" if "t \<in> set table" and "name t \<notin> name ` set batch"
    using kept_upsert [OF that] so by (intro one) simp
  show "filter (\<lambda>x. name x = name r) out = [r]" if "distinct (map name batch)" and "r \<in> set batch"
    using in_upsert [OF that, of table] so by (intro one) simp
  show "x \<in> set batch \<or> (x \<in> set table \<and> name x \<notin> name ` set batch)" if "x \<in> set out"
    using that so by (intro from_upsert) simp
qed

text \<open>
  Claim C6. When the stored names are distinct (the uniqueness that \<^verbatim>\<open>onConflict: 'name'\<close>
  relies on), the returned collection has at most one record per name, and each of its
  records is an incoming record or a stored record whose name is not incoming; every
  stored record whose name is not incoming is still there, unchanged; when the incoming
  names are distinct, the one record of an incoming name is the incoming record, all
  fields as they came in (\<open>createdAt\<close> among them); and a second pass with one record,
  of a name from the first pass or not, leaves exactly one record of that name, the
  second pass's.
\<close>

theorem reconcile_one_record_per_name:
  assumes "distinct (map name table)" and "reconcile table batch table' out"
  shows "distinct (map name out)
    \<and> (\<forall>x \<in> set out. x \<in> set batch \<or> (x \<in> set table \<and> name x \<notin> name ` set batch))
    \<and> (\<forall>t \<in> set table. name t \<notin> name ` set batch \<longrightarrow> filter (\<lambda>x. name x = name t) out = [t])
    \<and> (distinct (map name batch) \<longrightarrow> (\<forall>r \<in> set batch. filter (\<lambda>x. name x = name r) out = [r]))
    \<and> (\<forall>r2 table2 out2. reconcile table' [r2] table2 out2
          \<longrightarrow> filter (\<lambda>x. name x = name r2) out2 = [r2])"
proof -
  note rows = reconcile_rows [OF assms]
  have twice: "filter (\<lambda>x. name x = name r2) out2 = [r2]"
    if "reconcile table' [r2] table2 out2" for r2 table2 out2
    using reconcile_rows(4) [OF rows(5) that, of r2] by simp
  from rows(1,3,4,6) twice show ?thesis by blast
qed

theorem reconcile_one_record_per_name_witness:
  "distinct (map name ([] :: Trend list))
   \<and> reconcile []
        [enrich ''2026-01-01T00:00:00.000Z''
          \<lparr>name = ''#LEDcollars'', platform = tiktok, velocity = lit 450,
           cogs = lit 2.5, fees = lit 0.8, shipping = lit 1.2\<rparr> 0]
        [enrich ''2026-01-01T00:00:00.000Z''
          \<lparr>name = ''#LEDcollars'', platform = tiktok, velocity = lit 450,
           cogs = lit 2.5, fees = lit 0.8, shipping = lit 1.2\<rparr> 0]
        [enrich ''2026-01-01T00:00:00.000Z''
          \<lparr>name = ''#LEDcollars'', platform = tiktok, velocity = lit 450,
           cogs = lit 2.5, fees = lit 0.8, shipping = lit 1.2\<rparr> 0]
   \<and> reconcile
        [enrich ''2026-01-01T00:00:00.000Z''
          \<lparr>name = ''#LEDcollars'', platform = tiktok, velocity = lit 450,
           cogs = lit 2.5, fees = lit 0.8, shipping = lit 1.2\<rparr> 0]
        [enrich ''2026-01-02T00:00:00.000Z''
          \<lparr>name = ''#LEDcollars'', platform = tiktok, velocity = lit 100,
           cogs = lit 3, fees = lit 0.8, shipping = lit 1.2\<rparr> 0]
        [enrich ''2026-01-02T00:00:00.000Z''
          \<lparr>name = ''#LEDcollars'', platform = tiktok, velocity = lit 100,
           cogs = lit 3, fees = lit 0.8, shipping = lit 1.2\<rparr> 0]
        [enrich ''2026-01-02T00:00:00.000Z''
          \<lparr>name = ''#LEDcollars'', platform = tiktok, velocity = lit 100,
           cogs = lit 3, fees = lit 0.8, shipping = lit 1.2\<rparr> 0]
   \<and> name (enrich ''2026-01-02T00:00:00.000Z''
          \<lparr>name = ''#LEDcollars'', platform = tiktok, velocity = lit 100,
           cogs = lit 3, fees = lit 0.8, shipping = lit 1.2\<rparr> 0)
       = name (enrich ''2026-01-01T00:00:00.000Z''
          \<lparr>name = ''#LEDcollars'', platform = tiktok, velocity = lit 450,
           cogs = lit 2.5, fees = lit 0.8, shipping = lit 1.2\<rparr> 0)
   \<and> filter (\<lambda>x. name x = ''#LEDcollars'')
        [enrich ''2026-01-02T00:00:00.000Z''
          \<lparr>name = ''#LEDcollars'', platform = tiktok, velocity = lit 100,
           cogs = lit 3, fees = lit 0.8, shipping = lit 1.2\<rparr> 0]
       = [enrich ''2026-01-02T00:00:00.000Z''
          \<lparr>name = ''#LEDcollars'', platform = tiktok, velocity = lit 100,
           cogs = lit 3, fees = lit 0.8, shipping = lit 1.2\<rparr> 0]
   \<and> createdAt (enrich ''2026-01-02T00:00:00.000Z''
          \<lparr>name = ''#LEDcollars'', platform = tiktok, velocity = lit 100,
           cogs = lit 3, fees = lit 0.8, shipping = lit 1.2\<rparr> 0) = ''2026-01-02T00:00:00.000Z''"
proof -
  let ?r1 = "enrich ''2026-01-01T00:00:00.000Z''
        \<lparr>name = ''#LEDcollars'', platform = tiktok, velocity = lit 450,
         cogs = lit 2.5, fees = lit 0.8, shipping = lit 1.2\<rparr> 0"
  let ?r2 = "enrich ''2026-01-02T00:00:00.000Z''
        \<lparr>name = ''#LEDcollars'', platform = tiktok, velocity = lit 100,
         cogs = lit 3, fees = lit 0.8, shipping = lit 1.2\<rparr> 0"
  have d: "distinct (map name ([] :: Trend list))"
    by simp
  have p1: "reconcile [] [?r1] [?r1] [?r1]"
    by (simp add: reconcile_def select_order_desc_def upsert_def upsert_row_def)
  have p2: "reconcile [?r1] [?r2] [?r2] [?r2]"
    by (simp add: reconcile_def select_order_desc_def upsert_def upsert_row_def enrich_raw)
  have n: "name ?r2 = name ?r1"
    by (simp add: enrich_raw)
  from reconcile_one_record_per_name [OF d p1] p2
  have "filter (\<lambda>x. name x = name ?r2) [?r2] = [?r2]"
    by blast
  then have "filter (\<lambda>x. name x = ''#LEDcollars'') [?r2] = [?r2]"
    by (simp add: enrich_raw)
  with d p1 p2 n show ?thesis by (simp add: enrich_fields)
qed

end
